theory Spec2Isabelle
  imports Complex_Main
begin

section \<open>Configuration notebooks of the aggregate and merge modules\<close>

text \<open>
  The repository holds Jupyter notebooks. Each loads the shared YAML configuration file,
  previews a pipeline stage on a subset of the data and writes its own section back to
  the file. The notebooks call a toolkit (\<open>lib.aggregate\<close>, \<open>lib.merge\<close>,
  \<open>lib.shared\<close>) whose implementation is not among the source files; what is
  modelled of it says so.
\<close>

subsection \<open>Errors\<close>

text \<open>
  \<open>KeyError\<close> and \<open>TypeError\<close> are the Python exceptions of indexing;
  the other three are the error taxonomy of the pipeline.
\<close>

datatype error =
    KeyError string
  | TypeError
  | SchemaError "string list"
  | ConfigError string
  | AlignmentPreconditionError

subsection \<open>The configuration document\<close>

text \<open>
  What \<open>yaml.safe_load\<close> returns: scalars, lists, and dictionaries. A Python
  dictionary keeps its keys in insertion order, and \<open>yaml.dump\<close> is called with
  \<open>sort_keys=False\<close>, so a mapping is an association list.
\<close>

datatype yaml =
    YNull
  | YBool bool
  | YInt int
  | YFloat real
  | YStr string
  | YSeq "yaml list"
  | YMap "(string \<times> yaml) list"

text \<open>\<open>d[k]\<close>: a missing key raises \<open>KeyError\<close>, indexing anything but a
  dictionary by a string raises \<open>TypeError\<close>.\<close>

fun getitem :: "yaml \<Rightarrow> string \<Rightarrow> error + yaml" where
  "getitem (YMap d) k = (case map_of d k of None \<Rightarrow> Inl (KeyError k) | Some v \<Rightarrow> Inr v)"
| "getitem _ k = Inl TypeError"

text \<open>\<open>d[k] = v\<close> on a dictionary: an existing key keeps its position and takes the
  new value, a new key goes to the end.\<close>

fun setitem :: "string \<Rightarrow> yaml \<Rightarrow> (string \<times> yaml) list \<Rightarrow> (string \<times> yaml) list" where
  "setitem k v [] = [(k, v)]"
| "setitem k v ((k', v') # d) = (if k' = k then (k, v) # d else (k', v') # setitem k v d)"

fun dict_setitem :: "yaml \<Rightarrow> string \<Rightarrow> yaml \<Rightarrow> error + yaml" where
  "dict_setitem (YMap d) k v = Inr (YMap (setitem k v d))"
| "dict_setitem _ k v = Inl TypeError"

fun items :: "yaml \<Rightarrow> (string \<times> yaml) list" where
  "items (YMap d) = d"
| "items _ = []"

text \<open>\<open>config[a][b]\<close>.\<close>

definition getitem2 :: "yaml \<Rightarrow> string \<Rightarrow> string \<Rightarrow> error + yaml" where
  "getitem2 config a b = (case getitem config a of Inl e \<Rightarrow> Inl e | Inr s \<Rightarrow> getitem s b)"

text \<open>\<open>Path(config[a][b])\<close>: \<open>Path\<close> takes a string and raises
  \<open>TypeError\<close> on anything else the document can hold.\<close>

definition path_at :: "yaml \<Rightarrow> string \<Rightarrow> string \<Rightarrow> error + string" where
  "path_at config a b =
     (case getitem2 config a b of Inl e \<Rightarrow> Inl e
      | Inr v \<Rightarrow> (case v of YStr fp \<Rightarrow> Inr fp | _ \<Rightarrow> Inl TypeError))"

subsection \<open>Writing the aggregate section\<close>

text \<open>The values of the notebook's parameter cells, as they are dumped.\<close>

record aggregate_params =
  cfg_metadata_cols_fp :: yaml
  cfg_collapse_cols :: yaml
  cfg_classifier_path :: yaml
  cfg_aggregate_combo_fp :: yaml
  cfg_filter_queries :: yaml
  cfg_perturbation_name_col :: yaml
  cfg_drop_cols_threshold :: yaml
  cfg_drop_rows_threshold :: yaml
  cfg_impute :: yaml
  cfg_contamination :: yaml
  cfg_batch_cols :: yaml
  cfg_control_key :: yaml
  cfg_perturbation_id_col :: yaml
  cfg_variance_or_ncomp :: yaml
  cfg_num_align_batches :: yaml
  cfg_agg_method :: yaml

definition aggregate_section :: "aggregate_params \<Rightarrow> yaml" where
  "aggregate_section p = YMap
     [(''metadata_cols_fp'', cfg_metadata_cols_fp p),
      (''collapse_cols'', cfg_collapse_cols p),
      (''classifier_path'', cfg_classifier_path p),
      (''aggregate_combo_fp'', cfg_aggregate_combo_fp p),
      (''filter_queries'', cfg_filter_queries p),
      (''perturbation_name_col'', cfg_perturbation_name_col p),
      (''drop_cols_threshold'', cfg_drop_cols_threshold p),
      (''drop_rows_threshold'', cfg_drop_rows_threshold p),
      (''impute'', cfg_impute p),
      (''contamination'', cfg_contamination p),
      (''batch_cols'', cfg_batch_cols p),
      (''control_key'', cfg_control_key p),
      (''perturbation_id_col'', cfg_perturbation_id_col p),
      (''variance_or_ncomp'', cfg_variance_or_ncomp p),
      (''num_align_batches'', cfg_num_align_batches p),
      (''agg_method'', cfg_agg_method p)]"

text \<open>
  The aggregate notebook, as far as it touches \<open>config\<close>: it reads
  \<open>config["all"]["root_fp"]\<close>, \<open>config["phenotype"]["channel_names"]\<close> and
  \<open>config["merge"]["merge_combo_fp"]\<close>, assigns \<open>config["aggregate"]\<close>, and
  rewrites the file as \<open>CONFIG_FILE_HEADER\<close> followed by the dump of
  \<open>config\<close>. The cells in between load data and preview the pipeline; they do
  not assign to \<open>config\<close> and are left out. The header is a constant of the toolkit and is a parameter here. The
  file is modelled by the header and the document it holds. The toolkit functions that
  receive \<open>config["phenotype"]["channel_names"]\<close> are taken not to mutate it.
\<close>

definition configure_aggregate ::
  "string \<Rightarrow> yaml \<Rightarrow> aggregate_params \<Rightarrow> error + (string \<times> yaml)" where
  "configure_aggregate CONFIG_FILE_HEADER config p =
     (case path_at config ''all'' ''root_fp'' of Inl e \<Rightarrow> Inl e | Inr ROOT_FP \<Rightarrow>
     (case getitem2 config ''phenotype'' ''channel_names'' of Inl e \<Rightarrow> Inl e | Inr channels \<Rightarrow>
     (case path_at config ''merge'' ''merge_combo_fp'' of Inl e \<Rightarrow> Inl e | Inr MERGE_COMBO_FP \<Rightarrow>
     (case dict_setitem config ''aggregate'' (aggregate_section p) of Inl e \<Rightarrow> Inl e
      | Inr config' \<Rightarrow> Inr (CONFIG_FILE_HEADER, config')))))"

subsection \<open>Writing the merge section\<close>

record merge_params =
  cfg_merge_combo_fp :: yaml
  cfg_sbs_metadata_cycle :: yaml
  cfg_sbs_metadata_channel :: yaml
  cfg_ph_metadata_channel :: yaml
  cfg_initial_sites :: yaml
  cfg_det_range :: yaml
  cfg_score :: yaml
  cfg_threshold :: yaml

definition merge_section :: "merge_params \<Rightarrow> yaml" where
  "merge_section p = YMap
     [(''merge_combo_fp'', cfg_merge_combo_fp p),
      (''sbs_metadata_cycle'', cfg_sbs_metadata_cycle p),
      (''sbs_metadata_channel'', cfg_sbs_metadata_channel p),
      (''ph_metadata_channel'', cfg_ph_metadata_channel p),
      (''initial_sites'', cfg_initial_sites p),
      (''det_range'', cfg_det_range p),
      (''score'', cfg_score p),
      (''threshold'', cfg_threshold p)]"

text \<open>
  The merge notebook reads \<open>config["preprocess"]["sbs_combo_fp"]\<close>,
  \<open>config["preprocess"]["phenotype_combo_fp"]\<close> and \<open>config["all"]["root_fp"]\<close>
  before it assigns \<open>config["merge"]\<close> and rewrites the file.
\<close>

definition configure_merge ::
  "string \<Rightarrow> yaml \<Rightarrow> merge_params \<Rightarrow> error + (string \<times> yaml)" where
  "configure_merge CONFIG_FILE_HEADER config p =
     (case path_at config ''preprocess'' ''sbs_combo_fp'' of Inl e \<Rightarrow> Inl e | Inr SBS_COMBO_FP \<Rightarrow>
     (case path_at config ''preprocess'' ''phenotype_combo_fp'' of Inl e \<Rightarrow> Inl e
      | Inr PHENOTYPE_COMBO_FP \<Rightarrow>
     (case path_at config ''all'' ''root_fp'' of Inl e \<Rightarrow> Inl e | Inr ROOT_FP \<Rightarrow>
     (case dict_setitem config ''merge'' (merge_section p) of Inl e \<Rightarrow> Inl e
      | Inr config' \<Rightarrow> Inr (CONFIG_FILE_HEADER, config')))))"

subsection \<open>Plate-well combinations for merge\<close>

text \<open>
  The two wildcard tables, reduced to the columns the cell reads. Plate and well
  identifiers are values with ordinary equality (integers, strings).
\<close>

record ('p, 'w) wildcard_combos =
  plate :: "'p list"
  well :: "'w list"

text \<open>The table the cell builds and writes with \<open>to_csv(sep="\t", index=False)\<close>:
  its column names and its rows.\<close>

record ('p, 'w) combo_frame =
  frame_columns :: "string list"
  frame_rows :: "('p \<times> 'w) list"

text \<open>
  \<open>set(zip(...))\<close> is a duplicate-free list compared as a set. Python fixes no
  iteration order for \<open>list(sbs_combos)\<close>; the order \<open>remdups\<close> gives stands
  for it, and nothing below depends on it. The second component is the list of warnings
  emitted.
\<close>

definition merge_wildcard_combos ::
  "('p, 'w) wildcard_combos \<Rightarrow> ('p, 'w) wildcard_combos \<Rightarrow> ('p, 'w) combo_frame \<times> string list" where
  "merge_wildcard_combos sbs_wildcard_combos phenotype_wildcard_combos =
     (let sbs_combos = remdups (zip (plate sbs_wildcard_combos) (well sbs_wildcard_combos));
          phenotype_combos =
            remdups (zip (plate phenotype_wildcard_combos) (well phenotype_wildcard_combos))
      in if set sbs_combos = set phenotype_combos
         then (\<lparr>frame_columns = [''plate'', ''well''], frame_rows = sbs_combos\<rparr>, [])
         else (\<lparr>frame_columns = [''plate'', ''well''], frame_rows = []\<rparr>,
               [''SBS and PHENOTYPE do not have matching plate-well combinations. Merging requires identical sets.'']))"

section \<open>The aggregate pipeline\<close>

subsection \<open>Tables\<close>

text \<open>
  A pandas DataFrame: the row labels and the columns in order, each column a name and its
  cells. A cell is a missing value (\<open>NaN\<close>, \<open>None\<close>), a boolean, an
  integer, a number or a string. Embeddings are numpy arrays: lists of rows of numbers.
\<close>

datatype cell = NA | CBool bool | CInt int | CNum real | CStr string

record table =
  row_index :: "nat list"
  columns :: "(string \<times> cell list) list"

definition nrows :: "table \<Rightarrow> nat" where
  "nrows t = length (row_index t)"

definition column_names :: "table \<Rightarrow> string list" where
  "column_names t = map fst (columns t)"

text \<open>\<open>df[name]\<close>, with \<open>None\<close> where pandas raises \<open>KeyError\<close>.\<close>

definition column :: "table \<Rightarrow> string \<Rightarrow> cell list option" where
  "column t name = map_of (columns t) name"

text \<open>\<open>df[mask]\<close> for a boolean mask: the rows whose mask entry is true, in order.\<close>

definition keep :: "bool list \<Rightarrow> 'a list \<Rightarrow> 'a list" where
  "keep selected xs = map fst (filter snd (zip xs selected))"

definition take_rows :: "bool list \<Rightarrow> table \<Rightarrow> table" where
  "take_rows selected t =
     \<lparr>row_index = keep selected (row_index t),
      columns = map (\<lambda>(name, v). (name, keep selected v)) (columns t)\<rparr>"

definition cell_at :: "cell list \<Rightarrow> nat \<Rightarrow> cell" where
  "cell_at v i = (if i < length v then v ! i else NA)"

text \<open>Every column has one cell per row label; a table has no missing cell.\<close>

definition well_formed :: "table \<Rightarrow> bool" where
  "well_formed t = list_all (\<lambda>nv. length (snd nv) = nrows t) (columns t)"

definition null_free :: "table \<Rightarrow> bool" where
  "null_free t = list_all (\<lambda>nv. NA \<notin> set (snd nv)) (columns t)"

text \<open>\<open>Series.nunique()\<close>: the number of distinct values, missing values not
  counted.\<close>

definition nunique :: "cell list \<Rightarrow> nat" where
  "nunique v = length (remdups (filter (\<lambda>c. c \<noteq> NA) v))"

subsection \<open>Splitter\<close>

text \<open>
  Modelled from the spec: \<open>split_cell_data\<close> of \<open>lib.aggregate.cell_data_utils\<close>
  is called by the aggregate notebook and is not among the source files. The spec, 4.1:
  given a cell table and an explicit ordered list of metadata column names, it returns
  two tables (metadata, features) with identical row indexing and order; it fails with
  \<open>SchemaError\<close>, reporting the offending names, if any listed column is absent;
  features are all columns not in the metadata list, in their input order. The metadata
  columns are taken in the order of the list.
\<close>

definition split_cell_data :: "table \<Rightarrow> string list \<Rightarrow> error + (table \<times> table)" where
  "split_cell_data cell_data metadata_cols =
     (let absent = filter (\<lambda>c. column cell_data c = None) metadata_cols
      in if absent \<noteq> [] then Inl (SchemaError absent)
         else Inr
           (\<lparr>row_index = row_index cell_data,
             columns = concat (map (\<lambda>c. case column cell_data c of None \<Rightarrow> []
                                          | Some v \<Rightarrow> [(c, v)]) metadata_cols)\<rparr>,
            \<lparr>row_index = row_index cell_data,
             columns = filter (\<lambda>nv. fst nv \<notin> set metadata_cols) (columns cell_data)\<rparr>))"

subsection \<open>Query and perturbation filters\<close>

text \<open>Modelled from the spec: the row a query expression is evaluated against, metadata
  and features joined (spec, 4.2); part of \<open>query_filter\<close>.\<close>

definition joined_row :: "table \<Rightarrow> table \<Rightarrow> nat \<Rightarrow> string \<Rightarrow> cell option" where
  "joined_row metadata features i =
     map_of (map (\<lambda>(name, v). (name, cell_at v i)) (columns metadata @ columns features))"

text \<open>
  Modelled from the spec: \<open>query_filter\<close> of \<open>lib.aggregate.filter\<close> is not
  among the source files. The spec, 4.2: it applies zero or more boolean expressions
  evaluated against the joined row; a row survives only if it satisfies all of them; an
  empty or absent list is the identity. An expression string is modelled by the predicate
  on rows it denotes.
\<close>

definition query_filter ::
  "table \<Rightarrow> table \<Rightarrow> ((string \<Rightarrow> cell option) \<Rightarrow> bool) list option \<Rightarrow> table \<times> table" where
  "query_filter metadata features queries =
     (case queries of None \<Rightarrow> (metadata, features)
      | Some qs \<Rightarrow>
          (let selected = map (\<lambda>i. list_all (\<lambda>q. q (joined_row metadata features i)) qs)
                        [0..<nrows metadata]
           in (take_rows selected metadata, take_rows selected features)))"

text \<open>
  Modelled from the spec: \<open>perturbation_filter\<close> of \<open>lib.aggregate.filter\<close> is
  not among the source files. The spec, 4.2: it drops the rows where the designated
  perturbation column is null; an absent column is a \<open>SchemaError\<close> (spec, 7).
\<close>

definition perturbation_filter :: "table \<Rightarrow> table \<Rightarrow> string \<Rightarrow> error + (table \<times> table)" where
  "perturbation_filter metadata features perturbation_name_col =
     (case column metadata perturbation_name_col of
        None \<Rightarrow> Inl (SchemaError [perturbation_name_col])
      | Some v \<Rightarrow>
          (let selected = map (\<lambda>c. c \<noteq> NA) v
           in Inr (take_rows selected metadata, take_rows selected features)))"

text \<open>
  The notebook cell that runs the two filters and prints the number of unique
  populations. The third component of the result is the number printed. The cell takes
  it from \<open>metadata\<close>, the table \<open>split_cell_data\<close> returned, while the filters
  run on \<open>class_metadata\<close> and give \<open>pf_metadata\<close>.
\<close>

definition perturbation_cell ::
  "table \<Rightarrow> table \<Rightarrow> table \<Rightarrow> ((string \<Rightarrow> cell option) \<Rightarrow> bool) list option \<Rightarrow> string
     \<Rightarrow> error + (table \<times> table \<times> nat)" where
  "perturbation_cell metadata class_metadata class_features FILTER_QUERIES PERTURBATION_NAME_COL =
     (case query_filter class_metadata class_features FILTER_QUERIES of
        (qf_metadata, qf_features) \<Rightarrow>
     (case perturbation_filter qf_metadata qf_features PERTURBATION_NAME_COL of
        Inl e \<Rightarrow> Inl e
      | Inr (pf_metadata, pf_features) \<Rightarrow>
     (case column metadata PERTURBATION_NAME_COL of
        None \<Rightarrow> Inl (KeyError PERTURBATION_NAME_COL)
      | Some v \<Rightarrow> Inr (pf_metadata, pf_features, nunique v))))"

subsection \<open>Missing-value filter\<close>

text \<open>
  Modelled from the spec: the parts of \<open>missing_values_filter\<close> (spec, 4.2), which
  is not among the source files. The null fraction is the fraction of missing cells;
  pandas gives \<open>NaN\<close> for no cells at all, and \<open>NaN\<close> exceeds nothing. Feature
  cells are numbers or missing. The median of a list of numbers is the middle one of the
  sorted list, or the mean of the two middle ones; the empty list has none, and then
  nothing is filled.
\<close>

definition null_fraction :: "cell list \<Rightarrow> real option" where
  "null_fraction v =
     (if v = [] then None
      else Some (real (length (filter (\<lambda>c. c = NA) v)) / real (length v)))"

definition exceeds :: "real option \<Rightarrow> real \<Rightarrow> bool" where
  "exceeds f t = (case f of None \<Rightarrow> False | Some x \<Rightarrow> t < x)"

definition numbers :: "cell list \<Rightarrow> real list" where
  "numbers v = concat (map (\<lambda>c. case c of CNum x \<Rightarrow> [x] | CInt n \<Rightarrow> [real_of_int n] | _ \<Rightarrow> []) v)"

definition median :: "real list \<Rightarrow> real option" where
  "median xs =
     (let s = sort xs; n = length s
      in if n = 0 then None
         else if odd n then Some (s ! (n div 2))
         else Some ((s ! (n div 2 - 1) + s ! (n div 2)) / 2))"

definition fillna :: "real option \<Rightarrow> cell list \<Rightarrow> cell list" where
  "fillna m v = (case m of None \<Rightarrow> v | Some x \<Rightarrow> map (\<lambda>c. if c = NA then CNum x else c) v)"

definition row_cells :: "table \<Rightarrow> nat \<Rightarrow> cell list" where
  "row_cells t i = map (\<lambda>(name, v). cell_at v i) (columns t)"

text \<open>
  Modelled from the spec: \<open>missing_values_filter\<close> of \<open>lib.aggregate.filter\<close> is
  not among the source files. The spec, 4.2: a column is dropped if its null fraction
  across all rows exceeds \<open>drop_cols_threshold\<close>; after column pruning, a row is
  dropped if its null fraction across the remaining feature columns exceeds
  \<open>drop_rows_threshold\<close>; if \<open>impute\<close> is enabled, remaining nulls are filled
  with the per-column median computed over surviving rows; it fails with
  \<open>AlignmentPreconditionError\<close> if nulls remain and imputation is disabled. The spec
  does not say what fills a column with no value left; there the cells stay as they are.
\<close>

definition missing_values_filter ::
  "table \<Rightarrow> table \<Rightarrow> real \<Rightarrow> real \<Rightarrow> bool \<Rightarrow> error + (table \<times> table)" where
  "missing_values_filter metadata features drop_cols_threshold drop_rows_threshold impute =
     (let pruned = features
            \<lparr>columns := filter (\<lambda>nv. \<not> exceeds (null_fraction (snd nv)) drop_cols_threshold)
                           (columns features)\<rparr>;
          selected = map (\<lambda>i. \<not> exceeds (null_fraction (row_cells pruned i)) drop_rows_threshold)
                   [0..<nrows features];
          metadata' = take_rows selected metadata;
          features' = take_rows selected pruned
      in if impute
         then Inr (metadata',
                   features'\<lparr>columns := map (\<lambda>(name, v). (name, fillna (median (numbers v)) v))
                                            (columns features')\<rparr>)
         else if list_ex (\<lambda>nv. NA \<in> set (snd nv)) (columns features')
         then Inl AlignmentPreconditionError
         else Inr (metadata', features'))"

text \<open>
  The notebook cell that filters by missing values. It takes the thresholds from the
  parameter cell and passes \<open>impute=True\<close>, whatever \<open>IMPUTE\<close> was set to.
\<close>

definition missing_values_cell ::
  "table \<Rightarrow> table \<Rightarrow> real \<Rightarrow> real \<Rightarrow> bool \<Rightarrow> error + (table \<times> table)" where
  "missing_values_cell pf_metadata pf_features DROP_COLS_THRESHOLD DROP_ROWS_THRESHOLD IMPUTE =
     missing_values_filter pf_metadata pf_features DROP_COLS_THRESHOLD DROP_ROWS_THRESHOLD True"

subsection \<open>Aggregator\<close>

text \<open>
  Modelled from the spec: the parts of \<open>aggregate\<close> (spec, 4.6), which is not among
  the source files. The contributing rows of a perturbation \<open>k\<close> are the embedding
  rows of the cells whose perturbation is \<open>k\<close>. The mean of rows is their sum,
  component by component, divided by their number. The median is taken of each feature
  on its own; a group has at least one row, so the branch for no rows is never taken.
\<close>

definition contributing :: "cell list \<Rightarrow> real list list \<Rightarrow> cell \<Rightarrow> real list list" where
  "contributing perts embeddings k = map snd (filter (\<lambda>pe. fst pe = k) (zip perts embeddings))"

definition vec_sum :: "nat \<Rightarrow> real list list \<Rightarrow> real list" where
  "vec_sum d rows = foldr (\<lambda>r acc. map2 (+) r acc) rows (replicate d 0)"

definition vec_mean :: "nat \<Rightarrow> real list list \<Rightarrow> real list" where
  "vec_mean d rows = map (\<lambda>s. s / real (length rows)) (vec_sum d rows)"

definition vec_median :: "nat \<Rightarrow> real list list \<Rightarrow> real list" where
  "vec_median d rows =
     map (\<lambda>j. case median (map (\<lambda>r. r ! j) rows) of None \<Rightarrow> 0 | Some m \<Rightarrow> m) [0..<d]"

text \<open>
  Modelled from the spec: \<open>aggregate\<close> of \<open>lib.aggregate.aggregate\<close> is not among
  the source files. The spec, 4.6 and 7: from the normalized embeddings, the metadata,
  the perturbation column and a method it gives one row per unique perturbation value,
  with the aggregated feature vector and \<open>cell_count\<close>, the number of contributing
  cells; rows with a null perturbation contribute to no group; the median is taken per
  feature; an absent column is a \<open>SchemaError\<close>, an unknown method a
  \<open>ConfigError\<close>. The order of the output rows is not part of the contract.
\<close>

definition aggregate ::
  "real list list \<Rightarrow> table \<Rightarrow> string \<Rightarrow> string \<Rightarrow> error + (real list list \<times> table)" where
  "aggregate embeddings metadata perturbation_col method =
     (case column metadata perturbation_col of
        None \<Rightarrow> Inl (SchemaError [perturbation_col])
      | Some perts \<Rightarrow>
          if method \<noteq> ''mean'' \<and> method \<noteq> ''median'' then Inl (ConfigError ''method'')
          else
            (let keys = remdups (filter (\<lambda>c. c \<noteq> NA) perts);
                 d = (case embeddings of [] \<Rightarrow> 0 | e # _ \<Rightarrow> length e);
                 groups = map (contributing perts embeddings) keys
             in Inr (map (if method = ''mean'' then vec_mean d else vec_median d) groups,
                     \<lparr>row_index = [0..<length keys],
                      columns = [(perturbation_col, keys),
                                 (''cell_count'', map (\<lambda>g. CInt (int (length g))) groups)]\<rparr>)))"

section \<open>Concrete inputs\<close>

text \<open>A configuration file as the preprocessing, phenotype and merge notebooks leave it,
  parameter values as the notebooks' comments suggest them, and the documents the two
  notebooks write from them.\<close>

definition example_config :: yaml where
  "example_config = YMap
     [(''all'', YMap [(''root_fp'', YStr ''analysis_root/'')]),
      (''preprocess'', YMap [(''sbs_combo_fp'', YStr ''config/sbs_combo.tsv''),
                             (''phenotype_combo_fp'', YStr ''config/phenotype_combo.tsv'')]),
      (''phenotype'', YMap [(''channel_names'', YSeq [YStr ''DAPI'', YStr ''WGA''])]),
      (''merge'', YMap [(''merge_combo_fp'', YStr ''config/merge_combo.tsv'')])]"

definition example_aggregate_params :: aggregate_params where
  "example_aggregate_params =
     \<lparr>cfg_metadata_cols_fp = YStr ''config/cell_data_metadata_cols.tsv'',
      cfg_collapse_cols = YSeq [YStr ''sgRNA_0'', YStr ''gene_symbol_0''],
      cfg_classifier_path = YStr ''config/classifier.dill'',
      cfg_aggregate_combo_fp = YStr ''config/aggregate_combo.tsv'',
      cfg_filter_queries = YNull,
      cfg_perturbation_name_col = YStr ''gene_symbol_0'',
      cfg_drop_cols_threshold = YFloat (1/10),
      cfg_drop_rows_threshold = YFloat (1/100),
      cfg_impute = YBool True,
      cfg_contamination = YFloat (1/100),
      cfg_batch_cols = YSeq [YStr ''plate'', YStr ''well''],
      cfg_control_key = YStr ''nontargeting'',
      cfg_perturbation_id_col = YNull,
      cfg_variance_or_ncomp = YFloat (99/100),
      cfg_num_align_batches = YInt 1,
      cfg_agg_method = YStr ''median''\<rparr>"

definition example_merge_params :: merge_params where
  "example_merge_params =
     \<lparr>cfg_merge_combo_fp = YStr ''config/merge_combo.tsv'',
      cfg_sbs_metadata_cycle = YInt 1,
      cfg_sbs_metadata_channel = YNull,
      cfg_ph_metadata_channel = YNull,
      cfg_initial_sites = YSeq [YSeq [YInt 5, YInt 0]],
      cfg_det_range = YSeq [YFloat (56/1000), YFloat (72/1000)],
      cfg_score = YFloat (1/10),
      cfg_threshold = YInt 2\<rparr>"

definition written_after_aggregate :: yaml where
  "written_after_aggregate = YMap
     [(''all'', YMap [(''root_fp'', YStr ''analysis_root/'')]),
      (''preprocess'', YMap [(''sbs_combo_fp'', YStr ''config/sbs_combo.tsv''),
                             (''phenotype_combo_fp'', YStr ''config/phenotype_combo.tsv'')]),
      (''phenotype'', YMap [(''channel_names'', YSeq [YStr ''DAPI'', YStr ''WGA''])]),
      (''merge'', YMap [(''merge_combo_fp'', YStr ''config/merge_combo.tsv'')]),
      (''aggregate'', aggregate_section example_aggregate_params)]"

definition written_after_merge :: yaml where
  "written_after_merge = YMap
     [(''all'', YMap [(''root_fp'', YStr ''analysis_root/'')]),
      (''preprocess'', YMap [(''sbs_combo_fp'', YStr ''config/sbs_combo.tsv''),
                             (''phenotype_combo_fp'', YStr ''config/phenotype_combo.tsv'')]),
      (''phenotype'', YMap [(''channel_names'', YSeq [YStr ''DAPI'', YStr ''WGA''])]),
      (''merge'', merge_section example_merge_params)]"

text \<open>Wildcard tables: SBS has a well that phenotype lacks; a phenotype table with one
  row per tile repeats its plate-well pairs.\<close>

definition sbs_example :: "(nat, string) wildcard_combos" where
  "sbs_example = \<lparr>plate = [1, 1, 2], well = [''A1'', ''A2'', ''A1'']\<rparr>"

definition phenotype_example :: "(nat, string) wildcard_combos" where
  "phenotype_example = \<lparr>plate = [1, 1], well = [''A1'', ''A2'']\<rparr>"

definition phenotype_example_tiles :: "(nat, string) wildcard_combos" where
  "phenotype_example_tiles = \<lparr>plate = [1, 1, 1], well = [''A2'', ''A1'', ''A2'']\<rparr>"

text \<open>A cell table for the splitter.\<close>

definition cell_data_example :: table where
  "cell_data_example =
     \<lparr>row_index = [0, 1],
      columns = [(''plate'', [CInt 1, CInt 1]),
                 (''cell_dapi_mean'', [CNum 10, CNum 20]),
                 (''gene_symbol_0'', [CStr ''GENE_A'', NA]),
                 (''cell_area'', [CNum 4, CNum 5])]\<rparr>"

text \<open>Normalized embeddings of four cells and their metadata; the third cell has no
  perturbation. The aggregated metadata comes with the embeddings \<open>[[3, 4], [2, 4]]\<close>.\<close>

definition pad_metadata_example :: table where
  "pad_metadata_example =
     \<lparr>row_index = [0, 1, 2, 3],
      columns = [(''gene_symbol_0'', [CStr ''GENE_A'', CStr ''GENE_B'', NA, CStr ''GENE_A''])]\<rparr>"

definition tvn_normalized_example :: "real list list" where
  "tvn_normalized_example = [[1, 2], [3, 4], [5, 6], [3, 6]]"

definition aggregated_metadata_example :: table where
  "aggregated_metadata_example =
     \<lparr>row_index = [0, 1],
      columns = [(''gene_symbol_0'', [CStr ''GENE_B'', CStr ''GENE_A'']),
                 (''cell_count'', [CInt 1, CInt 2])]\<rparr>"

text \<open>
  Three cells whose second has no single mapped gene and whose third has no gene
  assigned, with the query \<open>mapped_single_gene == True\<close> that the notebook gives as
  its example; the one cell that passes both filters.
\<close>

definition cell_metadata_example :: table where
  "cell_metadata_example =
     \<lparr>row_index = [0, 1, 2],
      columns = [(''gene_symbol_0'', [CStr ''GENE_A'', CStr ''GENE_B'', NA]),
                 (''mapped_single_gene'', [CBool True, CBool False, CBool True])]\<rparr>"

definition cell_features_example :: table where
  "cell_features_example =
     \<lparr>row_index = [0, 1, 2],
      columns = [(''cell_dapi_mean'', [CNum 1, CNum 2, CNum 3])]\<rparr>"

definition mapped_single_gene_query :: "((string \<Rightarrow> cell option) \<Rightarrow> bool) list option" where
  "mapped_single_gene_query = Some [\<lambda>r. r ''mapped_single_gene'' = Some (CBool True)]"

definition surviving_metadata_example :: table where
  "surviving_metadata_example =
     \<lparr>row_index = [0],
      columns = [(''gene_symbol_0'', [CStr ''GENE_A'']), (''mapped_single_gene'', [CBool True])]\<rparr>"

definition surviving_features_example :: table where
  "surviving_features_example = \<lparr>row_index = [0], columns = [(''cell_dapi_mean'', [CNum 1])]\<rparr>"

text \<open>Three cells with one missing feature value, and the features with that value
  imputed.\<close>

definition pf_metadata_example :: table where
  "pf_metadata_example =
     \<lparr>row_index = [0, 1, 2],
      columns = [(''gene_symbol_0'', [CStr ''GENE_A'', CStr ''GENE_A'', CStr ''GENE_B''])]\<rparr>"

definition pf_features_example :: table where
  "pf_features_example =
     \<lparr>row_index = [0, 1, 2],
      columns = [(''cell_dapi_mean'', [CNum 1, NA, CNum 3]),
                 (''cell_dapi_median'', [CNum 1, CNum 2, CNum 3]),
                 (''cell_area'', [CNum 4, CNum 5, CNum 6])]\<rparr>"

definition imputed_features_example :: table where
  "imputed_features_example =
     \<lparr>row_index = [0, 1, 2],
      columns = [(''cell_dapi_mean'', [CNum 1, CNum 2, CNum 3]),
                 (''cell_dapi_median'', [CNum 1, CNum 2, CNum 3]),
                 (''cell_area'', [CNum 4, CNum 5, CNum 6])]\<rparr>"

section \<open>Properties\<close>

subsection \<open>Dictionary assignment\<close>

lemma map_of_setitem: "map_of (setitem k v d) k' = (if k' = k then Some v else map_of d k')"
  by (induction d) auto

lemma filter_setitem:
  "filter (\<lambda>kv. fst kv \<noteq> k) (setitem k v d) = filter (\<lambda>kv. fst kv \<noteq> k) d"
  by (induction d) auto

lemma dict_setitem_Inr:
  assumes "dict_setitem c k v = Inr c'"
  shows "\<exists>d. c = YMap d \<and> c' = YMap (setitem k v d)"
  using assms by (cases c) auto


subsection \<open>Rewriting the configuration file\<close>

lemma configure_aggregate_Inr:
  assumes "configure_aggregate hdr config p = Inr (h, written)"
  shows "\<exists>d. config = YMap d \<and> written = YMap (setitem ''aggregate'' (aggregate_section p) d) \<and> h = hdr"
  using assms dict_setitem_Inr
  by (fastforce simp: configure_aggregate_def split: sum.splits)

lemma configure_merge_Inr:
  assumes "configure_merge hdr config p = Inr (h, written)"
  shows "\<exists>d. config = YMap d \<and> written = YMap (setitem ''merge'' (merge_section p) d) \<and> h = hdr"
  using assms dict_setitem_Inr
  by (fastforce simp: configure_merge_def split: sum.splits)

text \<open>
  Claim C9. When the aggregate notebook rewrites the configuration file, the document
  it writes holds the new section under the key \<open>aggregate\<close>, every other key of
  the loaded document has the value it had, and the other sections come in the order they
  had. The merge notebook does the same with the key \<open>merge\<close>.
\<close>

theorem config_other_sections_unchanged:
  "(configure_aggregate hdr config p = Inr (h, written) \<longrightarrow>
      getitem written ''aggregate'' = Inr (aggregate_section p) \<and>
      (\<forall>k. k \<noteq> ''aggregate'' \<longrightarrow> getitem written k = getitem config k) \<and>
      filter (\<lambda>kv. fst kv \<noteq> ''aggregate'') (items written) =
        filter (\<lambda>kv. fst kv \<noteq> ''aggregate'') (items config)) \<and>
   (configure_merge hdr config q = Inr (h', written') \<longrightarrow>
      getitem written' ''merge'' = Inr (merge_section q) \<and>
      (\<forall>k. k \<noteq> ''merge'' \<longrightarrow> getitem written' k = getitem config k) \<and>
      filter (\<lambda>kv. fst kv \<noteq> ''merge'') (items written') =
        filter (\<lambda>kv. fst kv \<noteq> ''merge'') (items config))"
proof (intro conjI impI)
  assume a: "configure_aggregate hdr config p = Inr (h, written)"
  from configure_aggregate_Inr [OF a] obtain d where
    d: "config = YMap d" "written = YMap (setitem ''aggregate'' (aggregate_section p) d)"
    by blast
  show "getitem written ''aggregate'' = Inr (aggregate_section p)"
    by (simp add: d map_of_setitem)
  show "\<forall>k. k \<noteq> ''aggregate'' \<longrightarrow> getitem written k = getitem config k"
    by (simp add: d map_of_setitem)
  show "filter (\<lambda>kv. fst kv \<noteq> ''aggregate'') (items written) =
        filter (\<lambda>kv. fst kv \<noteq> ''aggregate'') (items config)"
    by (simp add: d filter_setitem)
next
  assume a: "configure_merge hdr config q = Inr (h', written')"
  from configure_merge_Inr [OF a] obtain d where
    d: "config = YMap d" "written' = YMap (setitem ''merge'' (merge_section q) d)"
    by blast
  show "getitem written' ''merge'' = Inr (merge_section q)"
    by (simp add: d map_of_setitem)
  show "\<forall>k. k \<noteq> ''merge'' \<longrightarrow> getitem written' k = getitem config k"
    by (simp add: d map_of_setitem)
  show "filter (\<lambda>kv. fst kv \<noteq> ''merge'') (items written') =
        filter (\<lambda>kv. fst kv \<noteq> ''merge'') (items config)"
    by (simp add: d filter_setitem)
qed

lemma configure_aggregate_example:
  "configure_aggregate ''# header'' example_config example_aggregate_params
     = Inr (''# header'', written_after_aggregate)"
  by (simp add: configure_aggregate_def example_config_def getitem2_def path_at_def
      written_after_aggregate_def)

lemma configure_merge_example:
  "configure_merge ''# header'' example_config example_merge_params
     = Inr (''# header'', written_after_merge)"
  by (simp add: configure_merge_def example_config_def getitem2_def path_at_def
      written_after_merge_def)

theorem config_other_sections_unchanged_witness:
  "configure_aggregate ''# header'' example_config example_aggregate_params
     = Inr (''# header'', written_after_aggregate) \<and>
   configure_merge ''# header'' example_config example_merge_params
     = Inr (''# header'', written_after_merge) \<and>
   ''phenotype'' \<noteq> ''aggregate'' \<and> ''phenotype'' \<noteq> ''merge'' \<and>
   getitem written_after_aggregate ''phenotype'' = getitem example_config ''phenotype'' \<and>
   getitem written_after_merge ''phenotype'' = getitem example_config ''phenotype'' \<and>
   getitem written_after_merge ''merge'' = Inr (merge_section example_merge_params) \<and>
   getitem written_after_merge ''merge'' \<noteq> getitem example_config ''merge''"
  using config_other_sections_unchanged [of "''# header''" example_config example_aggregate_params
      "''# header''" written_after_aggregate example_merge_params "''# header''" written_after_merge]
    configure_aggregate_example configure_merge_example
  by (simp add: example_config_def merge_section_def example_merge_params_def)


subsection \<open>Merge combinations\<close>

text \<open>
  Claim C10. The cell always produces a table with the columns plate and well and raises
  nothing. When the SBS and phenotype sets of plate-well pairs differ, the table has no
  rows and one warning is emitted. When they are equal, the rows are the shared pairs,
  each once, and no warning is emitted.
\<close>

theorem merge_wildcard_combos_table:
  fixes sbs ph :: "('p, 'w) wildcard_combos"
  shows "frame_columns (fst (merge_wildcard_combos sbs ph)) = [''plate'', ''well''] \<and>
    (set (zip (plate sbs) (well sbs)) \<noteq> set (zip (plate ph) (well ph)) \<longrightarrow>
       frame_rows (fst (merge_wildcard_combos sbs ph)) = [] \<and>
       length (snd (merge_wildcard_combos sbs ph)) = 1) \<and>
    (set (zip (plate sbs) (well sbs)) = set (zip (plate ph) (well ph)) \<longrightarrow>
       set (frame_rows (fst (merge_wildcard_combos sbs ph)))
         = set (zip (plate sbs) (well sbs)) \<inter> set (zip (plate ph) (well ph)) \<and>
       distinct (frame_rows (fst (merge_wildcard_combos sbs ph))) \<and>
       snd (merge_wildcard_combos sbs ph) = [])"
proof (cases "set (zip (plate sbs) (well sbs)) = set (zip (plate ph) (well ph))")
  case True
  then have "merge_wildcard_combos sbs ph =
      (\<lparr>frame_columns = [''plate'', ''well''],
        frame_rows = remdups (zip (plate sbs) (well sbs))\<rparr>, [])"
    unfolding merge_wildcard_combos_def Let_def set_remdups by (rule if_P)
  with True show ?thesis by simp
next
  case False
  then have "merge_wildcard_combos sbs ph =
      (\<lparr>frame_columns = [''plate'', ''well''], frame_rows = []\<rparr>,
       [''SBS and PHENOTYPE do not have matching plate-well combinations. Merging requires identical sets.''])"
    unfolding merge_wildcard_combos_def Let_def set_remdups by (rule if_not_P)
  with False show ?thesis by simp
qed


theorem merge_wildcard_combos_table_witness:
  "set (zip (plate sbs_example) (well sbs_example))
     \<noteq> set (zip (plate phenotype_example) (well phenotype_example)) \<and>
   frame_rows (fst (merge_wildcard_combos sbs_example phenotype_example)) = [] \<and>
   length (snd (merge_wildcard_combos sbs_example phenotype_example)) = 1 \<and>
   set (zip (plate phenotype_example) (well phenotype_example))
     = set (zip (plate phenotype_example_tiles) (well phenotype_example_tiles)) \<and>
   set (frame_rows (fst (merge_wildcard_combos phenotype_example phenotype_example_tiles)))
     = {(1, ''A1''), (1, ''A2'')} \<and>
   snd (merge_wildcard_combos phenotype_example phenotype_example_tiles) = []"
proof -
  have differ: "set (zip (plate sbs_example) (well sbs_example))
      \<noteq> set (zip (plate phenotype_example) (well phenotype_example))"
  proof
    assume "set (zip (plate sbs_example) (well sbs_example))
      = set (zip (plate phenotype_example) (well phenotype_example))"
    moreover have "(2, ''A1'') \<in> set (zip (plate sbs_example) (well sbs_example))"
      by (simp add: sbs_example_def)
    ultimately have "(2, ''A1'') \<in> set (zip (plate phenotype_example) (well phenotype_example))"
      by (rule subst)
    then show False by (simp add: phenotype_example_def)
  qed
  have same: "set (zip (plate phenotype_example) (well phenotype_example))
      = set (zip (plate phenotype_example_tiles) (well phenotype_example_tiles))"
    by (simp add: phenotype_example_def phenotype_example_tiles_def insert_commute)
  have rows: "set (zip (plate phenotype_example) (well phenotype_example))
      \<inter> set (zip (plate phenotype_example_tiles) (well phenotype_example_tiles))
      = {(1, ''A1''), (1, ''A2'')}"
    unfolding same [symmetric] by (simp add: phenotype_example_def)
  note t1 = merge_wildcard_combos_table [of sbs_example phenotype_example]
  note t2 = merge_wildcard_combos_table [of phenotype_example phenotype_example_tiles]
  from t1 differ have "frame_rows (fst (merge_wildcard_combos sbs_example phenotype_example)) = []"
    and "length (snd (merge_wildcard_combos sbs_example phenotype_example)) = 1"
    by blast+
  moreover from t2 same
  have "set (frame_rows (fst (merge_wildcard_combos phenotype_example phenotype_example_tiles)))
          = set (zip (plate phenotype_example) (well phenotype_example))
            \<inter> set (zip (plate phenotype_example_tiles) (well phenotype_example_tiles))"
    and "snd (merge_wildcard_combos phenotype_example phenotype_example_tiles) = []"
    by blast+
  ultimately show ?thesis
    using differ same unfolding rows by blast
qed



subsection \<open>Splitter\<close>

lemma column_None_iff: "column t c = None \<longleftrightarrow> c \<notin> set (column_names t)"
  by (simp add: column_def column_names_def map_of_eq_None_iff)

lemma picked_names:
  "set cs \<subseteq> set (column_names t) \<Longrightarrow>
   map fst (concat (map (\<lambda>c. case column t c of None \<Rightarrow> [] | Some v \<Rightarrow> [(c, v)]) cs)) = cs"
  by (induction cs) (auto simp: column_None_iff split: option.splits)

lemma picked_lookup:
  "c \<in> set cs \<Longrightarrow>
   map_of (concat (map (\<lambda>c. case column t c of None \<Rightarrow> [] | Some v \<Rightarrow> [(c, v)]) cs)) c
     = column t c"
  by (induction cs) (auto simp: map_of_eq_None_iff image_iff split: option.splits)

lemma kept_lookup:
  "c \<notin> set cs \<Longrightarrow> map_of (filter (\<lambda>nv. fst nv \<notin> set cs) xs) c = map_of xs c"
  by (induction xs) auto

text \<open>
  Claim C6. When every listed metadata column is present, \<open>split_cell_data\<close>
  returns a metadata and a features table. Their column names are disjoint and together
  are the input's column names; the feature columns come in their input order; both
  tables have the input's row labels in the input's order, and every column they hold has
  the cells of the input column of that name.
\<close>

theorem split_cell_data_partition:
  assumes "set metadata_cols \<subseteq> set (column_names cell_data)"
  shows "\<exists>metadata features.
     split_cell_data cell_data metadata_cols = Inr (metadata, features) \<and>
     set (column_names metadata) \<union> set (column_names features) = set (column_names cell_data) \<and>
     set (column_names metadata) \<inter> set (column_names features) = {} \<and>
     column_names features = filter (\<lambda>n. n \<notin> set metadata_cols) (column_names cell_data) \<and>
     row_index metadata = row_index cell_data \<and>
     row_index features = row_index cell_data \<and>
     (\<forall>n \<in> set (column_names metadata). column metadata n = column cell_data n) \<and>
     (\<forall>n \<in> set (column_names features). column features n = column cell_data n)"
proof -
  let ?md = "\<lparr>row_index = row_index cell_data,
      columns = concat (map (\<lambda>c. case column cell_data c of None \<Rightarrow> []
                                   | Some v \<Rightarrow> [(c, v)]) metadata_cols)\<rparr>"
  let ?ft = "\<lparr>row_index = row_index cell_data,
      columns = filter (\<lambda>nv. fst nv \<notin> set metadata_cols) (columns cell_data)\<rparr>"
  have none_absent: "filter (\<lambda>c. column cell_data c = None) metadata_cols = []"
    using assms by (auto simp: filter_empty_conv column_None_iff)
  have res: "split_cell_data cell_data metadata_cols = Inr (?md, ?ft)"
    by (simp add: split_cell_data_def none_absent)
  have md_names: "column_names ?md = metadata_cols"
    using picked_names [OF assms] by (simp add: column_names_def)
  have ft_names: "column_names ?ft = filter (\<lambda>n. n \<notin> set metadata_cols) (column_names cell_data)"
    by (simp add: column_names_def filter_map comp_def)
  have un: "set (column_names ?md) \<union> set (column_names ?ft) = set (column_names cell_data)"
    unfolding md_names ft_names using assms by auto
  have dis: "set (column_names ?md) \<inter> set (column_names ?ft) = {}"
    unfolding md_names ft_names by auto
  have md_cells: "\<forall>n \<in> set (column_names ?md). column ?md n = column cell_data n"
    unfolding md_names using picked_lookup [of _ metadata_cols cell_data]
    by (simp add: column_def)
  have ft_cells: "\<forall>n \<in> set (column_names ?ft). column ?ft n = column cell_data n"
    unfolding ft_names using kept_lookup [of _ metadata_cols "columns cell_data"]
    by (simp add: column_def)
  show ?thesis
    using res un dis ft_names md_cells ft_cells
    by (intro exI [of _ ?md] exI [of _ ?ft]) simp
qed

theorem split_cell_data_partition_witness:
  "set [''gene_symbol_0'', ''plate''] \<subseteq> set (column_names cell_data_example) \<and>
   split_cell_data cell_data_example [''gene_symbol_0'', ''plate'']
     = Inr (\<lparr>row_index = [0, 1],
             columns = [(''gene_symbol_0'', [CStr ''GENE_A'', NA]), (''plate'', [CInt 1, CInt 1])]\<rparr>,
            \<lparr>row_index = [0, 1],
             columns = [(''cell_dapi_mean'', [CNum 10, CNum 20]), (''cell_area'', [CNum 4, CNum 5])]\<rparr>) \<and>
   (\<exists>metadata features.
      split_cell_data cell_data_example [''gene_symbol_0'', ''plate''] = Inr (metadata, features) \<and>
      set (column_names metadata) \<union> set (column_names features)
        = set (column_names cell_data_example) \<and>
      row_index features = row_index cell_data_example)"
proof -
  have present: "set [''gene_symbol_0'', ''plate''] \<subseteq> set (column_names cell_data_example)"
    by (simp add: column_names_def cell_data_example_def)
  have run: "split_cell_data cell_data_example [''gene_symbol_0'', ''plate'']
     = Inr (\<lparr>row_index = [0, 1],
             columns = [(''gene_symbol_0'', [CStr ''GENE_A'', NA]), (''plate'', [CInt 1, CInt 1])]\<rparr>,
            \<lparr>row_index = [0, 1],
             columns = [(''cell_dapi_mean'', [CNum 10, CNum 20]), (''cell_area'', [CNum 4, CNum 5])]\<rparr>)"
    by (simp add: split_cell_data_def column_def cell_data_example_def)
  from split_cell_data_partition [OF present] obtain metadata features where
    "split_cell_data cell_data_example [''gene_symbol_0'', ''plate''] = Inr (metadata, features)"
    "set (column_names metadata) \<union> set (column_names features)
        = set (column_names cell_data_example)"
    "row_index features = row_index cell_data_example"
    by blast
  with present run show ?thesis by blast
qed


subsection \<open>Aggregator\<close>

lemma length_contributing:
  "length embeddings = length perts \<Longrightarrow>
   length (contributing perts embeddings k) = count_list perts k"
  unfolding contributing_def
  by (induction perts embeddings rule: list_induct2') auto

lemma count_list_filter:
  "P k \<Longrightarrow> count_list (filter P xs) k = count_list xs k"
  by (induction xs) auto

lemma sum_counts_remdups:
  "sum_list (map (count_list xs) (remdups (filter P xs))) = length (filter P xs)"
proof -
  let ?ys = "filter P xs"
  have "sum_list (map (count_list xs) (remdups ?ys)) = sum_list (map (count_list ?ys) (remdups ?ys))"
    by (rule arg_cong [where f = sum_list], rule map_cong) (auto simp: count_list_filter)
  also have "\<dots> = sum (count_list ?ys) (set ?ys)"
    using sum_list_distinct_conv_sum_set [of "remdups ?ys" "count_list ?ys"] by simp
  also have "\<dots> = length ?ys"
    by (rule sum_count_set) auto
  finally show ?thesis .
qed

lemma length_vec_sum: "\<forall>r \<in> set rows. length r = d \<Longrightarrow> length (vec_sum d rows) = d"
  by (induction rows) (auto simp: vec_sum_def)

lemma vec_sum_nth:
  "\<forall>r \<in> set rows. length r = d \<Longrightarrow> j < d \<Longrightarrow>
   vec_sum d rows ! j = (\<Sum>r\<leftarrow>rows. r ! j)"
proof (induction rows)
  case Nil
  then show ?case by (simp add: vec_sum_def)
next
  case (Cons r rows)
  then have "length (vec_sum d rows) = d" by (simp add: length_vec_sum)
  with Cons show ?case by (simp add: vec_sum_def)
qed

lemma vec_mean_nth:
  "\<forall>r \<in> set rows. length r = d \<Longrightarrow> j < d \<Longrightarrow>
   vec_mean d rows ! j = (\<Sum>r\<leftarrow>rows. r ! j) / real (length rows)"
  by (simp add: vec_mean_def length_vec_sum vec_sum_nth)

lemma contributing_subset: "set (contributing perts embeddings k) \<subseteq> set embeddings"
  by (auto simp: contributing_def dest: set_zip_rightD)

lemma first_row_length:
  "\<forall>e \<in> set embeddings. length e = d \<Longrightarrow> embeddings \<noteq> [] \<Longrightarrow>
   (case embeddings of [] \<Rightarrow> 0 | e # _ \<Rightarrow> length e) = d"
  by (cases embeddings) auto

text \<open>
  Claim C2. When \<open>aggregate\<close> returns, on embeddings and metadata of the same
  number of rows, its metadata has the perturbation column and \<open>cell_count\<close>: the
  perturbation values are the non-null values of the input, each once; there is one
  aggregated row per value; the cell counts are the numbers of contributing rows and sum
  to the number of input rows with a non-null perturbation; and for the method mean every
  aggregated value is the sum of the contributing rows' values of that feature divided by
  their number.
\<close>

theorem aggregate_one_row_per_perturbation:
  assumes agg: "aggregate embeddings metadata perturbation_col method = Inr (aggregated, aggregated_metadata)"
    and col: "column metadata perturbation_col = Some perts"
    and len: "length embeddings = length perts"
    and dim: "\<forall>e \<in> set embeddings. length e = d"
  shows "\<exists>keys counts.
      columns aggregated_metadata =
        [(perturbation_col, keys), (''cell_count'', map (\<lambda>n. CInt (int n)) counts)] \<and>
      distinct keys \<and> set keys = set perts - {NA} \<and>
      length aggregated = length keys \<and> length counts = length keys \<and>
      sum_list counts = length (filter (\<lambda>c. c \<noteq> NA) perts) \<and>
      (\<forall>i < length keys. counts ! i = length (contributing perts embeddings (keys ! i))) \<and>
      (method = ''mean'' \<longrightarrow>
         (\<forall>i < length keys. \<forall>j < d.
            aggregated ! i ! j
              = (\<Sum>e\<leftarrow>contributing perts embeddings (keys ! i). e ! j) / real (counts ! i)))"
proof -
  define keys where "keys = remdups (filter (\<lambda>c. c \<noteq> NA) perts)"
  define groups where "groups = map (contributing perts embeddings) keys"
  define counts where "counts = map length groups"
  define d0 where "d0 = (case embeddings of [] \<Rightarrow> 0 | e # _ \<Rightarrow> length e)"
  from agg col have m: "method = ''mean'' \<or> method = ''median''"
    by (auto simp: aggregate_def split: if_splits)
  from agg col m have a: "aggregated = map (if method = ''mean'' then vec_mean d0 else vec_median d0) groups"
    and md: "aggregated_metadata = \<lparr>row_index = [0..<length keys],
         columns = [(perturbation_col, keys),
                    (''cell_count'', map (\<lambda>g. CInt (int (length g))) groups)]\<rparr>"
    by (auto simp: aggregate_def Let_def keys_def groups_def d0_def split: if_splits)
  have c1: "columns aggregated_metadata =
        [(perturbation_col, keys), (''cell_count'', map (\<lambda>n. CInt (int n)) counts)]"
    by (simp add: md counts_def comp_def)
  have c2: "distinct keys" "set keys = set perts - {NA}"
    by (auto simp: keys_def)
  have c3: "length aggregated = length keys" "length counts = length keys"
    by (simp_all add: a counts_def groups_def)
  have "counts = map (count_list perts) keys"
    by (simp add: counts_def groups_def length_contributing [OF len] comp_def)
  then have c4: "sum_list counts = length (filter (\<lambda>c. c \<noteq> NA) perts)"
    by (simp add: keys_def sum_counts_remdups)
  have c5: "\<forall>i < length keys. counts ! i = length (contributing perts embeddings (keys ! i))"
    by (simp add: counts_def groups_def)
  have c6: "aggregated ! i ! j
              = (\<Sum>e\<leftarrow>contributing perts embeddings (keys ! i). e ! j) / real (counts ! i)"
    if mean: "method = ''mean''" and i: "i < length keys" and j: "j < d" for i j
  proof -
    let ?g = "contributing perts embeddings (keys ! i)"
    have rows: "\<forall>r \<in> set ?g. length r = d"
      using dim contributing_subset by blast
    have "keys ! i \<in> set perts" using i c2 nth_mem by fastforce
    then have "perts \<noteq> []" by auto
    with len have "embeddings \<noteq> []" by auto
    then have "d0 = d" unfolding d0_def using dim by (rule first_row_length [rotated])
    then have "aggregated ! i = vec_mean d ?g"
      using i mean by (simp add: a groups_def)
    then show ?thesis
      using vec_mean_nth [OF rows j] i by (simp add: counts_def groups_def)
  qed
  show ?thesis
    using c1 c2 c3 c4 c5 c6 by (intro exI [of _ keys] exI [of _ counts]) simp
qed


lemma aggregate_example:
  "aggregate tvn_normalized_example pad_metadata_example ''gene_symbol_0'' ''mean''
     = Inr ([[3, 4], [2, 4]], aggregated_metadata_example)"
  by (simp add: aggregate_def column_def pad_metadata_example_def tvn_normalized_example_def
      aggregated_metadata_example_def contributing_def vec_mean_def vec_sum_def upt_rec)

theorem aggregate_one_row_per_perturbation_witness:
  "aggregate tvn_normalized_example pad_metadata_example ''gene_symbol_0'' ''mean''
     = Inr ([[3, 4], [2, 4]], aggregated_metadata_example) \<and>
   column pad_metadata_example ''gene_symbol_0''
     = Some [CStr ''GENE_A'', CStr ''GENE_B'', NA, CStr ''GENE_A''] \<and>
   length tvn_normalized_example = length [CStr ''GENE_A'', CStr ''GENE_B'', NA, CStr ''GENE_A''] \<and>
   map length tvn_normalized_example = [2, 2, 2, 2] \<and>
   (\<exists>keys counts.
      columns aggregated_metadata_example =
        [(''gene_symbol_0'', keys), (''cell_count'', map (\<lambda>n. CInt (int n)) counts)] \<and>
      distinct keys \<and> sum_list counts = 3)"
proof -
  have col: "column pad_metadata_example ''gene_symbol_0''
     = Some [CStr ''GENE_A'', CStr ''GENE_B'', NA, CStr ''GENE_A'']"
    by (simp add: column_def pad_metadata_example_def)
  have len: "length tvn_normalized_example
      = length [CStr ''GENE_A'', CStr ''GENE_B'', NA, CStr ''GENE_A'']"
    by (simp add: tvn_normalized_example_def)
  have dim: "\<forall>e \<in> set tvn_normalized_example. length e = 2"
    by (simp add: tvn_normalized_example_def)
  from aggregate_one_row_per_perturbation [OF aggregate_example col len dim]
  obtain keys counts where
    "columns aggregated_metadata_example =
        [(''gene_symbol_0'', keys), (''cell_count'', map (\<lambda>n. CInt (int n)) counts)]"
    "distinct keys"
    "sum_list counts = length (filter (\<lambda>c. c \<noteq> NA) [CStr ''GENE_A'', CStr ''GENE_B'', NA, CStr ''GENE_A''])"
    by blast
  then have "\<exists>keys counts.
      columns aggregated_metadata_example =
        [(''gene_symbol_0'', keys), (''cell_count'', map (\<lambda>n. CInt (int n)) counts)] \<and>
      distinct keys \<and> sum_list counts = 3"
    by (intro exI [of _ keys] exI [of _ counts]) simp
  moreover have "map length tvn_normalized_example = [2, 2, 2, 2]"
    by (simp add: tvn_normalized_example_def)
  ultimately show ?thesis using aggregate_example col len by blast
qed


subsection \<open>The reported number of populations\<close>

lemma upt3: "[0..<3] = [0, 1, 2]" by (simp add: upt_rec)

text \<open>
  Claim C3, at an input where it fails. The query drops the second cell and the
  perturbation filter the third, so one perturbation survives; the number the cell prints
  is 2, the number of unique perturbations of the unfiltered \<open>metadata\<close>.
\<close>

theorem perturbation_cell_reports_unfiltered_count:
  "perturbation_cell cell_metadata_example cell_metadata_example cell_features_example
     mapped_single_gene_query ''gene_symbol_0''
     = Inr (surviving_metadata_example, surviving_features_example, 2) \<and>
   column surviving_metadata_example ''gene_symbol_0'' = Some [CStr ''GENE_A''] \<and>
   nunique [CStr ''GENE_A''] = 1"
  by (simp add: perturbation_cell_def query_filter_def perturbation_filter_def
      cell_metadata_example_def cell_features_example_def mapped_single_gene_query_def
      surviving_metadata_example_def surviving_features_example_def
      take_rows_def keep_def joined_row_def cell_at_def column_def nunique_def nrows_def upt3)


subsection \<open>The impute parameter\<close>

lemma fillna_complete: "NA \<notin> set v \<Longrightarrow> fillna m v = v"
  by (cases m) (auto simp: fillna_def intro: map_idI)

lemma fillna_example: "fillna (Some 2) [CNum 1, NA, CNum 3] = [CNum 1, CNum 2, CNum 3]"
  by (simp add: fillna_def)

lemma median_1_3: "median [1, 3] = Some 2"
  by (simp add: median_def)

text \<open>
  Claim C4, at an input where it fails. With \<open>IMPUTE\<close> set to false and a null
  left after the two thresholds, the filter called with that value fails with
  \<open>AlignmentPreconditionError\<close>; the notebook cell calls it with
  \<open>impute=True\<close> and returns the features with the null filled by the column
  median.
\<close>

theorem missing_values_cell_ignores_IMPUTE:
  "missing_values_cell pf_metadata_example pf_features_example (1/2) (1/2) False
     = Inr (pf_metadata_example, imputed_features_example) \<and>
   missing_values_filter pf_metadata_example pf_features_example (1/2) (1/2) False
     = Inl AlignmentPreconditionError"
  by (simp add: missing_values_cell_def missing_values_filter_def pf_metadata_example_def
      pf_features_example_def imputed_features_example_def null_fraction_def exceeds_def
      row_cells_def cell_at_def take_rows_def keep_def nrows_def upt3 numbers_def
      median_1_3 fillna_complete fillna_example Let_def)



subsection \<open>Applying a filter to its own output\<close>

text \<open>
  What the descriptions of the filters give about running a filter again on what it
  returned, for tables whose columns have one cell per row. The intensity filter is not
  covered: the outlier detector that decides it is not described beyond its expected
  outlier proportion.
\<close>

lemma keep_Nil [simp]: "keep m [] = []" "keep [] xs = []"
  by (simp_all add: keep_def)

lemma keep_Cons [simp]: "keep (b # m) (x # xs) = (if b then x # keep m xs else keep m xs)"
  by (simp add: keep_def)

lemma keep_all_True: "\<forall>b \<in> set m. b \<Longrightarrow> length xs \<le> length m \<Longrightarrow> keep m xs = xs"
proof (induction xs arbitrary: m)
  case Nil
  then show ?case by simp
next
  case (Cons x xs)
  then show ?case by (cases m) auto
qed

lemma length_keep: "length xs = length m \<Longrightarrow> length (keep m xs) = length (filter id m)"
  by (induction xs m rule: list_induct2) auto

lemma keep_map: "keep m (map f xs) = map f (keep m xs)"
proof (induction xs arbitrary: m)
  case Nil
  then show ?case by simp
next
  case (Cons x xs)
  then show ?case by (cases m) auto
qed

lemma keep_self: "keep (map P xs) xs = filter P xs"
  by (induction xs) auto

lemma nrows_take_rows: "length m = nrows t \<Longrightarrow> nrows (take_rows m t) = length (filter id m)"
  by (simp add: nrows_def take_rows_def length_keep)

lemma well_formed_take_rows:
  assumes "well_formed t" "length m = nrows t"
  shows "well_formed (take_rows m t)"
  using assms
  by (auto simp: well_formed_def take_rows_def nrows_def list_all_iff length_keep)

lemma take_rows_all_True:
  assumes "well_formed t" "\<forall>b \<in> set m. b" "nrows t \<le> length m"
  shows "take_rows m t = t"
proof -
  have "keep m (row_index t) = row_index t"
    using assms by (simp add: keep_all_True nrows_def)
  moreover have "map (\<lambda>(name, v). (name, keep m v)) (columns t) = columns t"
    using assms by (intro map_idI) (auto simp: well_formed_def list_all_iff keep_all_True)
  ultimately show ?thesis by (simp add: take_rows_def)
qed

lemma column_take_rows: "column (take_rows m t) c = map_option (keep m) (column t c)"
  by (simp add: column_def take_rows_def map_of_map)

lemma column_length:
  "well_formed t \<Longrightarrow> column t c = Some v \<Longrightarrow> length v = nrows t"
proof -
  assume "well_formed t" and "column t c = Some v"
  then have "(c, v) \<in> set (columns t)" by (auto simp: column_def dest: map_of_SomeD)
  with \<open>well_formed t\<close> show ?thesis by (auto simp: well_formed_def list_all_iff)
qed

text \<open>The perturbation filter leaves rows without a null perturbation, and on those
  it drops nothing.\<close>

lemma perturbation_filter_idempotent:
  assumes wf: "well_formed metadata" "well_formed features"
    and al: "nrows features = nrows metadata"
    and run: "perturbation_filter metadata features c = Inr (metadata', features')"
  shows "perturbation_filter metadata' features' c = Inr (metadata', features')"
proof -
  from run obtain v where v: "column metadata c = Some v"
    by (auto simp: perturbation_filter_def split: option.splits)
  define m where "m = map (\<lambda>x. x \<noteq> NA) v"
  from run v have out: "metadata' = take_rows m metadata" "features' = take_rows m features"
    by (auto simp: perturbation_filter_def m_def Let_def)
  have lv: "length v = nrows metadata" using wf(1) v by (rule column_length)
  then have lm: "length m = nrows metadata" by (simp add: m_def)
  have v': "column metadata' c = Some (filter (\<lambda>x. x \<noteq> NA) v)"
    by (simp add: out column_take_rows v m_def keep_self)
  define m' where "m' = map (\<lambda>x. x \<noteq> NA) (filter (\<lambda>x. x \<noteq> NA) v)"
  have all: "\<forall>b \<in> set m'. b" by (auto simp: m'_def)
  have lm': "length m' = length (filter id m)"
    by (simp add: m'_def m_def filter_map comp_def)
  have n1: "nrows metadata' = length m'"
    using lm by (simp add: out nrows_take_rows lm')
  have n2: "nrows features' = length m'"
    using lm al by (simp add: out nrows_take_rows lm')
  have w1: "well_formed metadata'" unfolding out using wf(1) lm by (rule well_formed_take_rows)
  have w2: "well_formed features'" unfolding out using wf(2) lm al
    by (simp add: well_formed_take_rows)
  have "take_rows m' metadata' = metadata'" "take_rows m' features' = features'"
    using w1 w2 all n1 n2 by (simp_all add: take_rows_all_True)
  then show ?thesis
    by (simp add: perturbation_filter_def v' Let_def m'_def [symmetric])
qed


text \<open>The rows the query filter keeps satisfy every query, row by row, so they all
  pass again.\<close>

lemma keep_nth: "length xs = length m \<Longrightarrow> keep m xs = map (nth xs) (keep m [0..<length m])"
proof -
  assume l: "length xs = length m"
  have "keep m xs = keep m (map (nth xs) [0..<length xs])" by (simp add: map_nth)
  also have "\<dots> = map (nth xs) (keep m [0..<length m])" by (simp add: keep_map l)
  finally show ?thesis .
qed

lemma keep_upt_selected:
  assumes "i \<in> set (keep m [0..<length m])"
  shows "i < length m \<and> m ! i"
proof -
  from assms obtain b where "(i, b) \<in> set (zip [0..<length m] m)" and b: "b"
    by (auto simp: keep_def)
  then obtain j where "j < length m" "[0..<length m] ! j = i" "m ! j = b"
    by (auto simp: set_zip)
  with b show ?thesis by simp
qed

lemma cell_at_keep:
  assumes "length v = length m" "i < length (filter id m)"
  shows "cell_at (keep m v) i = cell_at v (keep m [0..<length m] ! i)"
proof -
  let ?sel = "keep m [0..<length m]"
  have ls: "length ?sel = length (filter id m)" by (simp add: length_keep)
  have lk: "length (keep m v) = length (filter id m)" using assms(1) by (simp add: length_keep)
  have "?sel ! i \<in> set ?sel" using assms(2) ls by simp
  then have "?sel ! i < length v" using keep_upt_selected assms(1) by fastforce
  moreover have "keep m v ! i = v ! (?sel ! i)"
    using keep_nth [OF assms(1)] assms(2) ls by simp
  ultimately show ?thesis using assms(2) lk by (simp add: cell_at_def)
qed

lemma joined_row_take_rows:
  assumes wf: "well_formed metadata" "well_formed features"
    and al: "nrows features = nrows metadata"
    and lm: "length m = nrows metadata"
    and i: "i < length (filter id m)"
  shows "joined_row (take_rows m metadata) (take_rows m features) i
         = joined_row metadata features (keep m [0..<length m] ! i)"
proof -
  have "map (\<lambda>(name, v). (name, cell_at (keep m v) i)) (columns metadata @ columns features)
      = map (\<lambda>(name, v). (name, cell_at v (keep m [0..<length m] ! i)))
          (columns metadata @ columns features)"
    using wf al lm i
    by (intro map_cong refl) (auto simp: well_formed_def list_all_iff cell_at_keep)
  moreover have "map (\<lambda>(name, v). (name, cell_at v i))
        (columns (take_rows m metadata) @ columns (take_rows m features))
      = map (\<lambda>(name, v). (name, cell_at (keep m v) i)) (columns metadata @ columns features)"
    by (simp add: take_rows_def comp_def case_prod_unfold)
  ultimately have "map (\<lambda>(name, v). (name, cell_at v i))
        (columns (take_rows m metadata) @ columns (take_rows m features))
      = map (\<lambda>(name, v). (name, cell_at v (keep m [0..<length m] ! i)))
          (columns metadata @ columns features)"
    by (rule trans [rotated])
  then show ?thesis
    unfolding joined_row_def by (rule arg_cong)
qed

lemma query_filter_idempotent:
  assumes wf: "well_formed metadata" "well_formed features"
    and al: "nrows features = nrows metadata"
    and run: "query_filter metadata features queries = (metadata', features')"
  shows "query_filter metadata' features' queries = (metadata', features')"
proof (cases queries)
  case None
  with run show ?thesis by (simp add: query_filter_def)
next
  case (Some qs)
  define P where "P = (\<lambda>r. list_all (\<lambda>q. q r) qs)"
  define m where "m = map (\<lambda>i. P (joined_row metadata features i)) [0..<nrows metadata]"
  from run Some have out: "metadata' = take_rows m metadata" "features' = take_rows m features"
    by (auto simp: query_filter_def m_def P_def Let_def)
  have lm: "length m = nrows metadata" by (simp add: m_def)
  define m' where "m' = map (\<lambda>i. P (joined_row metadata' features' i)) [0..<nrows metadata']"
  have n1: "nrows metadata' = length (filter id m)"
    using lm by (simp add: out nrows_take_rows)
  have n2: "nrows features' = length (filter id m)"
    using lm al by (simp add: out nrows_take_rows)
  have all: "\<forall>b \<in> set m'. b"
  proof
    fix b assume "b \<in> set m'"
    then obtain i where i: "i < length (filter id m)" and b: "b = P (joined_row metadata' features' i)"
      by (auto simp: m'_def n1)
    let ?j = "keep m [0..<length m] ! i"
    have "?j \<in> set (keep m [0..<length m])" using i by (simp add: length_keep)
    then have j: "?j < length m" "m ! ?j" using keep_upt_selected by blast+
    have "joined_row metadata' features' i = joined_row metadata features ?j"
      unfolding out using wf al lm i by (rule joined_row_take_rows)
    then have "b = m ! ?j" using j(1) lm by (simp add: b m_def)
    with j(2) show b by simp
  qed
  have w1: "well_formed metadata'" unfolding out using wf(1) lm by (rule well_formed_take_rows)
  have w2: "well_formed features'" unfolding out using wf(2) lm al
    by (simp add: well_formed_take_rows)
  have "take_rows m' metadata' = metadata'" "take_rows m' features' = features'"
    using w1 w2 all n1 n2 by (simp_all add: take_rows_all_True m'_def)
  then show ?thesis
    by (simp add: query_filter_def Some Let_def m'_def P_def)
qed


text \<open>
  The missing-value filter returns a table without nulls unchanged, when the thresholds
  are not negative. So it returns its own output unchanged whenever that output has no
  null, which is always so without imputation.
\<close>

lemma not_exceeds_null_free:
  "NA \<notin> set v \<Longrightarrow> 0 \<le> t \<Longrightarrow> \<not> exceeds (null_fraction v) t"
proof -
  assume "NA \<notin> set v" and t: "0 \<le> t"
  then have "filter (\<lambda>c. c = NA) v = []" by (auto simp: filter_empty_conv)
  with t show ?thesis by (simp add: exceeds_def null_fraction_def)
qed

lemma row_cells_null_free:
  assumes "well_formed t" "null_free t" "i < nrows t"
  shows "NA \<notin> set (row_cells t i)"
proof
  assume "NA \<in> set (row_cells t i)"
  then obtain name v where nv: "(name, v) \<in> set (columns t)" and c: "cell_at v i = NA"
    by (auto simp: row_cells_def)
  from nv assms have "length v = nrows t" "NA \<notin> set v"
    by (auto simp: well_formed_def null_free_def list_all_iff)
  with assms(3) have "i < length v" by simp
  then have "v ! i \<in> set v" by (rule nth_mem)
  moreover from c \<open>i < length v\<close> have "v ! i = NA" by (simp add: cell_at_def)
  ultimately show False using \<open>NA \<notin> set v\<close> by simp
qed

lemma missing_values_filter_null_free_fixpoint:
  assumes wf: "well_formed metadata" "well_formed features"
    and al: "nrows metadata = nrows features"
    and nf: "null_free features"
    and t: "0 \<le> drop_cols_threshold" "0 \<le> drop_rows_threshold"
  shows "missing_values_filter metadata features drop_cols_threshold drop_rows_threshold impute
         = Inr (metadata, features)"
proof -
  have cols: "filter (\<lambda>nv. \<not> exceeds (null_fraction (snd nv)) drop_cols_threshold) (columns features)
      = columns features"
    using nf t(1) by (auto simp: null_free_def list_all_iff not_exceeds_null_free)
  define m where "m = map (\<lambda>i. \<not> exceeds (null_fraction (row_cells features i)) drop_rows_threshold)
      [0..<nrows features]"
  have all: "\<forall>b \<in> set m. b"
    using wf(2) nf t(2) by (auto simp: m_def row_cells_null_free not_exceeds_null_free)
  have lm: "length m = nrows features" by (simp add: m_def)
  have keepm: "take_rows m metadata = metadata" "take_rows m features = features"
    using wf all lm al by (simp_all add: take_rows_all_True)
  have fill: "map (\<lambda>(name, v). (name, fillna (median (numbers v)) v)) (columns features)
      = columns features"
    using nf by (intro map_idI) (auto simp: null_free_def list_all_iff fillna_complete)
  have none: "\<not> list_ex (\<lambda>nv. NA \<in> set (snd nv)) (columns features)"
    using nf by (auto simp: null_free_def list_all_iff list_ex_iff)
  show ?thesis
    unfolding missing_values_filter_def Let_def cols
    by (simp add: m_def [symmetric] keepm fill none)
qed


lemma length_fillna: "length (fillna m v) = length v"
  by (cases m) (simp_all add: fillna_def)

lemma missing_values_filter_well_formed:
  assumes wf: "well_formed metadata" "well_formed features"
    and al: "nrows metadata = nrows features"
    and run: "missing_values_filter metadata features drop_cols_threshold drop_rows_threshold impute
              = Inr (metadata', features')"
  shows "well_formed metadata' \<and> well_formed features' \<and> nrows metadata' = nrows features'"
proof -
  define pruned where "pruned = features
      \<lparr>columns := filter (\<lambda>nv. \<not> exceeds (null_fraction (snd nv)) drop_cols_threshold)
                     (columns features)\<rparr>"
  define m where "m = map (\<lambda>i. \<not> exceeds (null_fraction (row_cells pruned i)) drop_rows_threshold)
      [0..<nrows features]"
  define filled where "filled = (take_rows m pruned)
      \<lparr>columns := map (\<lambda>(name, v). (name, fillna (median (numbers v)) v))
                     (columns (take_rows m pruned))\<rparr>"
  have lm: "length m = nrows features" by (simp add: m_def)
  have np: "nrows pruned = nrows features" by (simp add: pruned_def nrows_def)
  have wp: "well_formed pruned"
    using wf(2) by (auto simp: well_formed_def pruned_def list_all_iff nrows_def)
  have wt: "well_formed (take_rows m pruned)"
    using wp lm np by (simp add: well_formed_take_rows)
  have wfl: "well_formed filled"
    using wt by (auto simp: well_formed_def filled_def list_all_iff nrows_def length_fillna)
  have nf: "nrows filled = nrows (take_rows m pruned)" by (simp add: filled_def nrows_def)
  from run have md: "metadata' = take_rows m metadata"
    and ft: "features' = filled \<or> features' = take_rows m pruned"
    by (auto simp: missing_values_filter_def Let_def pruned_def m_def filled_def split: if_splits)
  have "well_formed metadata'"
    unfolding md using wf(1) lm al by (simp add: well_formed_take_rows)
  moreover have "well_formed features'" using ft wt wfl by auto
  moreover have "nrows metadata' = nrows features'"
    using ft nf lm al np by (auto simp: md nrows_take_rows)
  ultimately show ?thesis by simp
qed

lemma missing_values_filter_idempotent:
  assumes wf: "well_formed metadata" "well_formed features"
    and al: "nrows metadata = nrows features"
    and t: "0 \<le> drop_cols_threshold" "0 \<le> drop_rows_threshold"
    and run: "missing_values_filter metadata features drop_cols_threshold drop_rows_threshold impute
              = Inr (metadata', features')"
    and nf: "null_free features'"
  shows "missing_values_filter metadata' features' drop_cols_threshold drop_rows_threshold impute
         = Inr (metadata', features')"
proof -
  from missing_values_filter_well_formed [OF wf al run]
  have "well_formed metadata'" "well_formed features'" "nrows metadata' = nrows features'"
    by simp_all
  then show ?thesis using nf t by (rule missing_values_filter_null_free_fixpoint)
qed

lemma missing_values_filter_no_impute_null_free:
  assumes "missing_values_filter metadata features drop_cols_threshold drop_rows_threshold False
           = Inr (metadata', features')"
  shows "null_free features'"
  using assms
  by (auto simp: missing_values_filter_def Let_def null_free_def list_all_iff list_ex_iff
      split: if_splits)


end
